theory Spec2Isabelle
  imports Complex_Main
begin

section \<open>The sliding-window decision of \<^verbatim>\<open>Paper-3/em_detection.py\<close>\<close>

text \<open>
  The development embeds \<^verbatim>\<open>predict_probability\<close> (lines 209 to 249) and
  \<^verbatim>\<open>predict_output\<close> (lines 253 to 259), statement by statement.

  \<^item> Every call that leaves the file is a parameter that either raises or returns:
    \<^verbatim>\<open>extract_mfccs\<close> (called on line 210 and defined nowhere in the file),
    \<^verbatim>\<open>scaler.transform\<close> (line 211), \<^verbatim>\<open>load_model\<close> (line 216) and the loaded model's
    \<^verbatim>\<open>predict\<close> (lines 222 and 237).
  \<^item> A frame, an entry of \<^verbatim>\<open>mfccs_list\<close>, is the list of its numbers, so that
    \<^verbatim>\<open>reshape(1,12)\<close> can be modelled as it is.
  \<^item> Numbers are exact rationals: NumPy's floating-point rounding is not modelled.
    NumPy's \<^verbatim>\<open>nan\<close>, the mean of an empty array, is \<open>None\<close>.
  \<^item> \<^verbatim>\<open>count = 0\<close> on line 212 is never read and is left out.
\<close>

subsection \<open>Exceptions, constants and local state\<close>

text \<open>
  The classes of the exceptions that can leave \<^verbatim>\<open>predict_probability\<close>. \<open>Other\<close> carries
  the class name of any exception that is none of the four built-in ones.
\<close>

datatype py_error = IndexError | ValueError | NameError | OSError | Other string

type_synonym frame = "rat list"

text \<open>
  What the function takes from outside the file: \<^verbatim>\<open>extract_mfccs(y)\<close> raises or returns
  the list of frames; \<^verbatim>\<open>load_model('model3.h5')\<close> raises or returns a model, which is its
  \<^verbatim>\<open>predict(...).flatten()\<close>: on a reshaped frame it raises or returns the probability.
\<close>

record 'y externals =
  extract_mfccs :: "'y \<Rightarrow> py_error + frame list"
  load_model :: "py_error + (frame \<Rightarrow> py_error + rat)"

text \<open>
  The argument \<^verbatim>\<open>scaler\<close> is used for \<^verbatim>\<open>scaler.transform(mfccs_list)\<close> only, whose result
  is discarded: \<open>Some e\<close> when the call raises \<open>e\<close>, \<open>None\<close> when it returns.
\<close>

type_synonym scaler = "frame list \<Rightarrow> py_error option"

text \<open>\<^verbatim>\<open>N = 10 # Window size\<close> and \<^verbatim>\<open>th = 0.5\<close>, the locals of \<^verbatim>\<open>predict_probability\<close>.\<close>

definition N :: nat where
  "N = 10"

definition th :: rat where
  "th = 1 / 2"

text \<open>
  The two lists that \<^verbatim>\<open>predict_probability\<close> mutates. The field \<open>history\<close> is a ghost
  variable: it records the value of \<^verbatim>\<open>prob_list\<close> after each of its mutations, in
  order, starting with the empty list it is initialised to.
\<close>

record locals =
  prob_list :: "rat list"
  class_list :: "nat list"
  history :: "rat list list"

text \<open>\<^verbatim>\<open>prob_list = []\<close> and \<^verbatim>\<open>class_list = []\<close>\<close>

definition init_locals :: locals where
  "init_locals = \<lparr>prob_list = [], class_list = [], history = [[]]\<rparr>"

text \<open>A statement either raises, leaving the locals as they were then, or finishes.\<close>

type_synonym outcome = "(py_error \<times> locals) + locals"

subsection \<open>NumPy operations\<close>

text \<open>\<^verbatim>\<open>np.mean\<close>: the sum over the number of entries; \<^verbatim>\<open>nan\<close> on an empty array.\<close>

definition np_mean :: "rat list \<Rightarrow> rat option" where
  "np_mean xs = (if xs = [] then None else Some (sum_list xs / of_nat (length xs)))"

text \<open>\<^verbatim>\<open>prob > t\<close>: every comparison with \<^verbatim>\<open>nan\<close> is false.\<close>

fun np_gt :: "rat option \<Rightarrow> rat \<Rightarrow> bool" where
  "np_gt None t = False"
| "np_gt (Some m) t = (t < m)"

text \<open>\<^verbatim>\<open>.reshape(1,12)\<close>: ValueError unless the array holds exactly 12 numbers.\<close>

definition reshape_1_12 :: "frame \<Rightarrow> py_error + frame" where
  "reshape_1_12 v = (if length v = 12 then Inr v else Inl ValueError)"

text \<open>
  \<^verbatim>\<open>p = model.predict(<frame>.reshape(1,12), batch_size=None, verbose=0)\<close> and
  \<^verbatim>\<open>p = p.flatten()\<close>
\<close>

definition frame_prob :: "(frame \<Rightarrow> py_error + rat) \<Rightarrow> frame \<Rightarrow> py_error + rat" where
  "frame_prob model v =
     (case reshape_1_12 v of
        Inl e \<Rightarrow> Inl e
      | Inr x \<Rightarrow> model x)"

subsection \<open>List operations\<close>

text \<open>\<^verbatim>\<open>prob_list.append(p)\<close>\<close>

definition prob_append :: "rat \<Rightarrow> locals \<Rightarrow> locals" where
  "prob_append p s =
     s\<lparr>prob_list := prob_list s @ [p], history := history s @ [prob_list s @ [p]]\<rparr>"

text \<open>\<^verbatim>\<open>prob_list.pop(0)\<close>: removes the first entry; IndexError on an empty list.\<close>

definition prob_pop0 :: "locals \<Rightarrow> outcome" where
  "prob_pop0 s =
     (case prob_list s of
        [] \<Rightarrow> Inl (IndexError, s)
      | x # xs \<Rightarrow> Inr (s\<lparr>prob_list := xs, history := history s @ [xs]\<rparr>))"

text \<open>
  \<^verbatim>\<open>prob = np.mean(prob_list)\<close> followed by
  \<^verbatim>\<open>if prob > th: class_list.append(1) else: class_list.append(0)\<close>
\<close>

definition decide :: "locals \<Rightarrow> locals" where
  "decide s =
     (let prob = np_mean (prob_list s)
      in if np_gt prob th then s\<lparr>class_list := class_list s @ [1]\<rparr>
         else s\<lparr>class_list := class_list s @ [0]\<rparr>)"

subsection \<open>The two loops\<close>

text \<open>\<^verbatim>\<open>for i in <indices>: <body>\<close>, stopping at the first iteration that raises.\<close>

fun for_each :: "(nat \<Rightarrow> locals \<Rightarrow> outcome) \<Rightarrow> nat list \<Rightarrow> locals \<Rightarrow> outcome" where
  "for_each body [] s = Inr s"
| "for_each body (i # is) s =
     (case body i s of
        Inl e \<Rightarrow> Inl e
      | Inr s' \<Rightarrow> for_each body is s')"

text \<open>
  The body of the first loop (lines 222 to 224): \<^verbatim>\<open>mfccs_list[i]\<close> raises IndexError when
  \<open>i\<close> is out of range; then the frame is reshaped and scored, and its probability
  appended.
\<close>

definition fill_body ::
  "(frame \<Rightarrow> py_error + rat) \<Rightarrow> frame list \<Rightarrow> nat \<Rightarrow> locals \<Rightarrow> outcome" where
  "fill_body model mfccs i s =
     (if i < length mfccs then
        (case frame_prob model (mfccs ! i) of
           Inl e \<Rightarrow> Inl (e, s)
         | Inr p \<Rightarrow> Inr (prob_append p s))
      else Inl (IndexError, s))"

text \<open>
  The body of the second loop (lines 236 to 247): pop the oldest probability, index the
  frame, reshape and score it, append its probability, take the mean and append the
  decision.
\<close>

definition slide_body ::
  "(frame \<Rightarrow> py_error + rat) \<Rightarrow> frame list \<Rightarrow> nat \<Rightarrow> locals \<Rightarrow> outcome" where
  "slide_body model mfccs i s =
     (case prob_pop0 s of
        Inl e \<Rightarrow> Inl e
      | Inr s1 \<Rightarrow>
          if i < length mfccs then
            (case frame_prob model (mfccs ! i) of
               Inl e \<Rightarrow> Inl (e, s1)
             | Inr p \<Rightarrow> Inr (decide (prob_append p s1)))
          else Inl (IndexError, s1))"

subsection \<open>\<^verbatim>\<open>predict_probability\<close> and \<^verbatim>\<open>predict_output\<close>\<close>

text \<open>
  Lines 218 to 247, once the frames and the model are there: the two empty lists,
  \<^verbatim>\<open>for i in range(N)\<close>, the first decision, \<^verbatim>\<open>for i in range(N, len(mfccs_list))\<close>.
\<close>

definition run :: "(frame \<Rightarrow> py_error + rat) \<Rightarrow> frame list \<Rightarrow> outcome" where
  "run model mfccs =
     (case for_each (fill_body model mfccs) [0..<N] init_locals of
        Inl e \<Rightarrow> Inl e
      | Inr s \<Rightarrow> for_each (slide_body model mfccs) [N..<length mfccs] (decide s))"

text \<open>
  \<^verbatim>\<open>predict_probability(y, scaler)\<close>: lines 210, 211 and 216, each of which may raise, then
  the loops, then \<^verbatim>\<open>return class_list\<close>.
\<close>

definition predict_probability :: "'y externals \<Rightarrow> 'y \<Rightarrow> scaler \<Rightarrow> py_error + nat list" where
  "predict_probability ext y scaler =
     (case extract_mfccs ext y of
        Inl e \<Rightarrow> Inl e
      | Inr mfccs_list \<Rightarrow>
          (case scaler mfccs_list of
             Some e \<Rightarrow> Inl e
           | None \<Rightarrow>
               (case load_model ext of
                  Inl e \<Rightarrow> Inl e
                | Inr model \<Rightarrow>
                    (case run model mfccs_list of
                       Inl (e, s) \<Rightarrow> Inl e
                     | Inr s \<Rightarrow> Inr (class_list s)))))"

text \<open>
  \<^verbatim>\<open>predict_output(y, scaler)\<close>: an exception of \<^verbatim>\<open>predict_probability\<close> propagates;
  otherwise \<^verbatim>\<open>if np.mean(class_list) > 0.5: return 1 else: return 0\<close>, where \<open>classes\<close>
  is the list that \<^verbatim>\<open>predict_probability\<close> returned.
\<close>

definition predict_output :: "'y externals \<Rightarrow> 'y \<Rightarrow> scaler \<Rightarrow> py_error + nat" where
  "predict_output ext y scaler =
     (case predict_probability ext y scaler of
        Inl e \<Rightarrow> Inl e
      | Inr classes \<Rightarrow>
          Inr (if np_gt (np_mean (map of_nat classes)) (1 / 2) then 1 else 0))"

subsection \<open>Notation for stating the properties\<close>

text \<open>
  The calls that leave the file all return: \<^verbatim>\<open>extract_mfccs(y)\<close> gives the frames
  \<open>mfccs\<close>, \<^verbatim>\<open>scaler.transform\<close> accepts them, \<^verbatim>\<open>load_model\<close> gives \<open>model\<close>, and every frame
  holds 12 numbers on which the model returns the probability \<open>score\<close> gives.
\<close>

definition calls_succeed ::
  "'y externals \<Rightarrow> 'y \<Rightarrow> scaler \<Rightarrow> frame list \<Rightarrow> (frame \<Rightarrow> py_error + rat) \<Rightarrow>
   (frame \<Rightarrow> rat) \<Rightarrow> bool" where
  "calls_succeed ext y scaler mfccs model score \<longleftrightarrow>
     extract_mfccs ext y = Inr mfccs \<and> scaler mfccs = None \<and> load_model ext = Inr model \<and>
     (\<forall>f\<in>set mfccs. length f = 12 \<and> model f = Inr (score f))"

text \<open>The locals when the loops end, by an exception or not.\<close>

definition final_locals :: "outcome \<Rightarrow> locals" where
  "final_locals r = (case r of Inl (e, s) \<Rightarrow> s | Inr s \<Rightarrow> s)"

text \<open>The probabilities of the \<open>N\<close> frames that start at frame \<open>k\<close>, in frame order.\<close>

abbreviation window :: "(frame \<Rightarrow> rat) \<Rightarrow> frame list \<Rightarrow> nat \<Rightarrow> rat list" where
  "window score mfccs k \<equiv> map score (take N (drop k mfccs))"

text \<open>The label that \<open>decide\<close> appends when \<^verbatim>\<open>prob_list\<close> holds \<open>w\<close>.\<close>

abbreviation label_of :: "rat list \<Rightarrow> nat" where
  "label_of w \<equiv> (if np_gt (np_mean w) th then 1 else 0)"

text \<open>
  A scripted test double: the clip is the list of the probabilities wanted, one per
  frame; each frame holds its probability 12 times, and the model returns the first
  number of a frame. \<open>no_scaling\<close> is a scaler whose \<^verbatim>\<open>transform\<close> always returns.
\<close>

definition scripted_frames :: "rat list \<Rightarrow> frame list" where
  "scripted_frames y = map (replicate 12) y"

definition scripted_model :: "frame \<Rightarrow> py_error + rat" where
  "scripted_model v = Inr (hd v)"

definition scripted :: "rat list externals" where
  "scripted = \<lparr>extract_mfccs = (\<lambda>y. Inr (scripted_frames y)),
               load_model = Inr scripted_model\<rparr>"

definition no_scaling :: scaler where
  "no_scaling mfccs = None"

section \<open>The loops in closed form\<close>

lemma for_each_append:
  "for_each body (xs @ ys) s =
     (case for_each body xs s of Inl e \<Rightarrow> Inl e | Inr s' \<Rightarrow> for_each body ys s')"
  by (induction xs arbitrary: s) (auto split: sum.splits)

lemma decide_eq: "decide s = s\<lparr>class_list := class_list s @ [label_of (prob_list s)]\<rparr>"
  by (simp add: decide_def Let_def)

text \<open>A frame of 12 numbers that the model accepts is scored.\<close>

lemma frame_prob_scored:
  assumes "\<forall>f\<in>set mfccs. length f = 12 \<and> model f = Inr (score f)" and "i < length mfccs"
  shows "frame_prob model (mfccs ! i) = Inr (score (mfccs ! i))"
proof -
  have "mfccs ! i \<in> set mfccs" using assms(2) by simp
  then have "length (mfccs ! i) = 12" and "model (mfccs ! i) = Inr (score (mfccs ! i))"
    using assms(1) by blast+
  then show ?thesis by (simp add: frame_prob_def reshape_1_12_def)
qed

text \<open>The first loop, run over the indices below \<open>n\<close>, when that many frames exist.\<close>

lemma fill_prefix:
  assumes sc: "\<forall>f\<in>set mfccs. length f = 12 \<and> model f = Inr (score f)"
  shows "n \<le> length mfccs \<Longrightarrow>
   for_each (fill_body model mfccs) [0..<n] init_locals =
     Inr \<lparr>prob_list = map score (take n mfccs), class_list = [],
          history = map (\<lambda>j. map score (take j mfccs)) [0..<Suc n]\<rparr>"
proof (induction n)
  case 0
  then show ?case by (simp add: init_locals_def)
next
  case (Suc n)
  then have n: "n < length mfccs" by simp
  then have "for_each (fill_body model mfccs) [0..<n] init_locals =
     Inr \<lparr>prob_list = map score (take n mfccs), class_list = [],
          history = map (\<lambda>j. map score (take j mfccs)) [0..<Suc n]\<rparr>"
    using Suc.IH by simp
  moreover have "fill_body model mfccs n s = Inr (prob_append (score (mfccs ! n)) s)" for s
    using n frame_prob_scored [OF sc n] by (simp add: fill_body_def)
  ultimately show ?case using n
    by (simp add: for_each_append prob_append_def take_Suc_conv_app_nth)
qed

text \<open>With fewer frames than indices, the first loop raises at the first missing frame.\<close>

lemma fill_short:
  assumes sc: "\<forall>f\<in>set mfccs. length f = 12 \<and> model f = Inr (score f)"
    and short: "length mfccs < n"
  shows "for_each (fill_body model mfccs) [0..<n] init_locals =
     Inl (IndexError, \<lparr>prob_list = map score mfccs, class_list = [],
          history = map (\<lambda>j. map score (take j mfccs)) [0..<Suc (length mfccs)]\<rparr>)"
proof -
  have "[0..<n] = [0..<length mfccs] @ (length mfccs # [Suc (length mfccs)..<n])"
  proof -
    have "[0..<n] = [0..<length mfccs] @ [length mfccs..<n]"
      using short upt_add_eq_append [of 0 "length mfccs" "n - length mfccs"] by simp
    then show ?thesis using short by (simp add: upt_conv_Cons)
  qed
  moreover have "fill_body model mfccs (length mfccs) s = Inl (IndexError, s)" for s
    by (simp add: fill_body_def)
  ultimately show ?thesis
    using fill_prefix [OF sc, of "length mfccs"]
    by (simp add: for_each_append)
qed

lemma run_short:
  assumes "\<forall>f\<in>set mfccs. length f = 12 \<and> model f = Inr (score f)" and "length mfccs < N"
  shows "run model mfccs =
     Inl (IndexError, \<lparr>prob_list = map score mfccs, class_list = [],
          history = map (\<lambda>j. map score (take j mfccs)) [0..<Suc (length mfccs)]\<rparr>)"
  using fill_short [OF assms] by (simp add: run_def)

text \<open>Dropping the oldest entry of a window and appending the next frame's probability
  gives the next window.\<close>

lemma window_step:
  assumes "0 < n" "k + n < length xs"
  shows "tl (map f (take n (drop k xs))) @ [f (xs ! (k + n))] = map f (take n (drop (Suc k) xs))"
proof -
  obtain m where m: "n = Suc m" using assms(1) by (cases n) auto
  have "tl (take n (drop k xs)) = take m (drop (Suc k) xs)"
    by (simp add: m tl_take drop_Suc tl_drop)
  moreover have "take (Suc m) (drop (Suc k) xs) = take m (drop (Suc k) xs) @ [drop (Suc k) xs ! m]"
    using assms(2) m by (intro take_Suc_conv_app_nth) simp
  moreover have "drop (Suc k) xs ! m = xs ! (k + n)"
    using assms(2) m by simp
  ultimately have "tl (take n (drop k xs)) @ [xs ! (k + n)] = take n (drop (Suc k) xs)"
    by (simp only: m)
  then have "map f (tl (take n (drop k xs)) @ [xs ! (k + n)]) = map f (take n (drop (Suc k) xs))"
    by (rule arg_cong)
  then show ?thesis by (simp only: map_append map_tl list.map)
qed

text \<open>One iteration of the second loop, started with a full window.\<close>

lemma slide_step:
  assumes sc: "\<forall>f\<in>set mfccs. length f = 12 \<and> model f = Inr (score f)"
    and "prob_list s = window score mfccs k" "k + N < length mfccs"
  shows "slide_body model mfccs (k + N) s =
    Inr (s\<lparr>prob_list := window score mfccs (Suc k),
           class_list := class_list s @ [label_of (window score mfccs (Suc k))],
           history := history s @ [tl (window score mfccs k), window score mfccs (Suc k)]\<rparr>)"
proof -
  have pos: "0 < N" by (simp add: N_def)
  have ne: "take N (drop k mfccs) \<noteq> []" using assms(3) pos by simp
  then obtain x xs where c: "window score mfccs k = x # xs"
    by (cases "window score mfccs k") auto
  have st: "xs @ [score (mfccs ! (k + N))] = window score mfccs (Suc k)"
    using window_step [OF pos assms(3), of score] c by simp
  have pl: "prob_list s = x # xs" using assms(2) c by simp
  have pop: "prob_pop0 s = Inr (s\<lparr>prob_list := xs, history := history s @ [xs]\<rparr>)"
    by (simp add: prob_pop0_def pl)
  have tl: "tl (window score mfccs k) = xs" using c by simp
  have fp: "frame_prob model (mfccs ! (k + N)) = Inr (score (mfccs ! (k + N)))"
    using sc assms(3) by (rule frame_prob_scored)
  show ?thesis
    unfolding slide_body_def pop tl fp
    using assms(3) by (simp add: prob_append_def decide_eq st)
qed

text \<open>The second loop over \<open>d\<close> further frames.\<close>

lemma slide_loop:
  assumes sc: "\<forall>f\<in>set mfccs. length f = 12 \<and> model f = Inr (score f)"
    and "prob_list s = window score mfccs 0" "N + d \<le> length mfccs"
  shows "for_each (slide_body model mfccs) [N..<N + d] s =
    Inr (s\<lparr>prob_list := window score mfccs d,
           class_list := class_list s @ map (\<lambda>j. label_of (window score mfccs j)) [1..<Suc d],
           history := history s @
             concat (map (\<lambda>j. [tl (window score mfccs (j - 1)), window score mfccs j]) [1..<Suc d])\<rparr>)"
  using assms(2,3)
proof (induction d)
  case 0
  then show ?case by simp
next
  case (Suc d)
  let ?s' = "s\<lparr>prob_list := window score mfccs d,
           class_list := class_list s @ map (\<lambda>j. label_of (window score mfccs j)) [1..<Suc d],
           history := history s @
             concat (map (\<lambda>j. [tl (window score mfccs (j - 1)), window score mfccs j]) [1..<Suc d])\<rparr>"
  have ih: "for_each (slide_body model mfccs) [N..<N + d] s = Inr ?s'"
    using Suc by simp
  have step: "slide_body model mfccs (d + N) ?s' =
    Inr (?s'\<lparr>prob_list := window score mfccs (Suc d),
           class_list := class_list ?s' @ [label_of (window score mfccs (Suc d))],
           history := history ?s' @ [tl (window score mfccs d), window score mfccs (Suc d)]\<rparr>)"
    using Suc.prems by (intro slide_step [OF sc]) simp_all
  have "[N..<N + Suc d] = [N..<N + d] @ [N + d]" by simp
  then show ?case
    using ih step by (simp add: for_each_append add.commute)
qed

text \<open>The loops on a clip of at least \<open>N\<close> frames.\<close>

lemma run_ok:
  assumes sc: "\<forall>f\<in>set mfccs. length f = 12 \<and> model f = Inr (score f)"
    and long: "N \<le> length mfccs"
  shows "run model mfccs =
    Inr \<lparr>prob_list = window score mfccs (length mfccs - N),
         class_list = map (\<lambda>j. label_of (window score mfccs j)) [0..<Suc (length mfccs - N)],
         history = map (\<lambda>j. map score (take j mfccs)) [0..<Suc N] @
           concat (map (\<lambda>j. [tl (window score mfccs (j - 1)), window score mfccs j])
                    [1..<Suc (length mfccs - N)])\<rparr>"
proof -
  let ?s = "\<lparr>prob_list = map score (take N mfccs), class_list = [],
          history = map (\<lambda>j. map score (take j mfccs)) [0..<Suc N]\<rparr>"
  have fill: "for_each (fill_body model mfccs) [0..<N] init_locals = Inr ?s"
    using sc long by (rule fill_prefix)
  have "for_each (slide_body model mfccs) [N..<N + (length mfccs - N)] (decide ?s) =
    Inr ((decide ?s)\<lparr>prob_list := window score mfccs (length mfccs - N),
           class_list := class_list (decide ?s) @ map (\<lambda>j. label_of (window score mfccs j)) [1..<Suc (length mfccs - N)],
           history := history (decide ?s) @
             concat (map (\<lambda>j. [tl (window score mfccs (j - 1)), window score mfccs j]) [1..<Suc (length mfccs - N)])\<rparr>)"
    using long by (intro slide_loop [OF sc]) (simp_all add: decide_eq)
  moreover have "[0..<Suc (length mfccs - N)] = 0 # [1..<Suc (length mfccs - N)]"
    by (simp add: upt_conv_Cons)
  ultimately show ?thesis
    using fill long unfolding run_def by (simp add: decide_eq del: upt_Suc)
qed

section \<open>What \<^verbatim>\<open>predict_probability\<close> returns\<close>

lemma predict_probability_run:
  assumes "calls_succeed ext y scaler mfccs model score"
  shows "predict_probability ext y scaler =
           (case run model mfccs of Inl (e, s) \<Rightarrow> Inl e | Inr s \<Rightarrow> Inr (class_list s))"
  using assms by (simp add: predict_probability_def calls_succeed_def)

lemma predict_probability_short:
  assumes "calls_succeed ext y scaler mfccs model score" and "length mfccs < N"
  shows "predict_probability ext y scaler = Inl IndexError"
proof -
  have "\<forall>f\<in>set mfccs. length f = 12 \<and> model f = Inr (score f)"
    using assms(1) by (simp add: calls_succeed_def)
  then show ?thesis
    using run_short [of mfccs model score] assms(2)
    by (simp add: predict_probability_run [OF assms(1)])
qed

lemma predict_probability_eq:
  assumes "calls_succeed ext y scaler mfccs model score" and "N \<le> length mfccs"
  shows "predict_probability ext y scaler =
     Inr (map (\<lambda>j. label_of (window score mfccs j)) [0..<Suc (length mfccs - N)])"
proof -
  have "\<forall>f\<in>set mfccs. length f = 12 \<and> model f = Inr (score f)"
    using assms(1) by (simp add: calls_succeed_def)
  then show ?thesis
    using run_ok [of mfccs model score] assms(2)
    by (simp add: predict_probability_run [OF assms(1)] del: upt_Suc)
qed

text \<open>The second loop only appends to \<^verbatim>\<open>class_list\<close>, whatever the model does.\<close>

lemma slide_body_classes:
  "slide_body model mfccs i s = Inr s' \<Longrightarrow> length (class_list s) < length (class_list s')"
  by (auto simp: slide_body_def prob_pop0_def prob_append_def decide_eq
           split: list.splits if_splits sum.splits)

lemma slide_loop_classes:
  "for_each (slide_body model mfccs) is s = Inr s' \<Longrightarrow>
   length (class_list s) \<le> length (class_list s')"
proof (induction "is" arbitrary: s)
  case Nil
  then show ?case by simp
next
  case (Cons i "is")
  then obtain s1 where s1: "slide_body model mfccs i s = Inr s1"
    and rest: "for_each (slide_body model mfccs) is s1 = Inr s'"
    by (auto split: sum.splits)
  show ?case
    using slide_body_classes [OF s1] Cons.IH [OF rest] by simp
qed

lemma run_classes_nonempty:
  assumes "run model mfccs = Inr s"
  shows "class_list s \<noteq> []"
proof -
  obtain s0 where "for_each (slide_body model mfccs) [N..<length mfccs] (decide s0) = Inr s"
    using assms by (auto simp: run_def split: sum.splits)
  then have "length (class_list (decide s0)) \<le> length (class_list s)"
    by (rule slide_loop_classes)
  then show ?thesis by (auto simp: decide_eq)
qed

lemma predict_probability_nonempty:
  "predict_probability ext y scaler \<noteq> Inr []"
proof
  assume "predict_probability ext y scaler = Inr []"
  then obtain model mfccs s where "run model mfccs = Inr s" and "class_list s = []"
    by (auto simp: predict_probability_def split: sum.splits option.splits prod.splits)
  then show False using run_classes_nonempty by blast
qed

text \<open>The first loop finishes only if every index it uses is in range.\<close>

lemma fill_loop_in_range:
  "for_each (fill_body model mfccs) is s = Inr s' \<Longrightarrow> \<forall>i\<in>set is. i < length mfccs"
proof (induction "is" arbitrary: s)
  case Nil
  then show ?case by simp
next
  case (Cons i "is")
  then obtain s1 where s1: "fill_body model mfccs i s = Inr s1"
    and rest: "for_each (fill_body model mfccs) is s1 = Inr s'"
    by (auto split: sum.splits)
  have "i < length mfccs"
    using s1 by (auto simp: fill_body_def split: if_splits)
  then show ?case using Cons.IH [OF rest] by simp
qed

lemma run_returns_long:
  assumes "run model mfccs = Inr s"
  shows "N \<le> length mfccs"
proof -
  obtain s0 where "for_each (fill_body model mfccs) [0..<N] init_locals = Inr s0"
    using assms by (auto simp: run_def split: sum.splits)
  then have "\<forall>i\<in>set [0..<N]. i < length mfccs"
    by (rule fill_loop_in_range)
  moreover have "N - 1 \<in> set [0..<N]" by (simp add: N_def)
  ultimately have "N - 1 < length mfccs" by blast
  then show ?thesis by (simp add: N_def)
qed

lemma predict_probability_returns_long:
  assumes "predict_probability ext y scaler = Inr cl" and "extract_mfccs ext y = Inr mfccs"
  shows "N \<le> length mfccs"
proof -
  obtain model s where "run model mfccs = Inr s"
    using assms
    by (auto simp: predict_probability_def split: sum.splits option.splits prod.splits)
  then show ?thesis by (rule run_returns_long)
qed

lemma predict_probability_short_fails:
  assumes "extract_mfccs ext y = Inr mfccs" and "length mfccs < N"
  shows "\<exists>e. predict_probability ext y scaler = Inl e"
proof (cases "predict_probability ext y scaler")
  case (Inl e)
  then show ?thesis by blast
next
  case (Inr cl)
  then have "N \<le> length mfccs"
    using assms(1) by (rule predict_probability_returns_long)
  then show ?thesis using assms(2) by simp
qed

text \<open>The bound on the window, whatever the model does.\<close>

lemma fill_loop_bound:
  assumes "length (prob_list s) + length is \<le> N"
    and "\<forall>pl\<in>set (history s). length pl \<le> N"
  shows "(\<forall>pl\<in>set (history (final_locals (for_each (fill_body model mfccs) is s))).
            length pl \<le> N) \<and>
         (\<forall>s'. for_each (fill_body model mfccs) is s = Inr s' \<longrightarrow>
            length (prob_list s') = length (prob_list s) + length is)"
  using assms
proof (induction "is" arbitrary: s)
  case Nil
  then show ?case by (simp add: final_locals_def)
next
  case (Cons i "is")
  show ?case
  proof (cases "fill_body model mfccs i s")
    case (Inl es)
    then have "es = (fst es, s)"
      by (auto simp: fill_body_def split: if_splits sum.splits)
    then have "final_locals (Inl es) = s"
      by (metis final_locals_def old.sum.simps(5) case_prod_conv)
    then show ?thesis using Inl Cons.prems by simp
  next
    case (Inr s1)
    then obtain p where s1: "s1 = prob_append p s"
      by (auto simp: fill_body_def split: if_splits sum.splits)
    have a: "length (prob_list s1) + length is \<le> N"
      using Cons.prems(1) by (simp add: s1 prob_append_def)
    have b: "\<forall>pl\<in>set (history s1). length pl \<le> N"
      using Cons.prems by (auto simp: s1 prob_append_def)
    have c: "length (prob_list s1) = Suc (length (prob_list s))"
      by (simp add: s1 prob_append_def)
    show ?thesis
      using Cons.IH [OF a b] Inr c by simp
  qed
qed

lemma slide_loop_bound:
  assumes "length (prob_list s) \<le> N" and "\<forall>pl\<in>set (history s). length pl \<le> N"
  shows "\<forall>pl\<in>set (history (final_locals (for_each (slide_body model mfccs) is s))).
            length pl \<le> N"
  using assms
proof (induction "is" arbitrary: s)
  case Nil
  then show ?case by (simp add: final_locals_def)
next
  case (Cons i "is")
  show ?case
  proof (cases "slide_body model mfccs i s")
    case (Inl es)
    then have "\<forall>pl\<in>set (history (snd es)). length pl \<le> N"
      using Cons.prems
      by (auto simp: slide_body_def prob_pop0_def split: list.splits if_splits sum.splits)
    moreover have "final_locals (Inl es) = snd es"
      by (simp add: final_locals_def split: prod.splits)
    ultimately show ?thesis using Inl by simp
  next
    case (Inr s1)
    then have a: "length (prob_list s1) \<le> N"
      and b: "\<forall>pl\<in>set (history s1). length pl \<le> N"
      using Cons.prems
      by (auto simp: slide_body_def prob_pop0_def prob_append_def decide_eq
               split: list.splits if_splits sum.splits)
    show ?thesis
      using Cons.IH [OF a b] Inr by simp
  qed
qed

lemma run_history_bound:
  "\<forall>pl\<in>set (history (final_locals (run model mfccs))). length pl \<le> N"
proof -
  have i: "length (prob_list init_locals) + length [0..<N] \<le> N"
    and h: "\<forall>pl\<in>set (history init_locals). length pl \<le> N"
    by (simp_all add: init_locals_def)
  note fill = fill_loop_bound [OF i h, of model mfccs]
  show ?thesis
  proof (cases "for_each (fill_body model mfccs) [0..<N] init_locals")
    case (Inl es)
    then have "run model mfccs = Inl es" by (simp add: run_def)
    then show ?thesis using fill Inl by simp
  next
    case (Inr s)
    then have r: "run model mfccs =
        for_each (slide_body model mfccs) [N..<length mfccs] (decide s)"
      by (simp add: run_def)
    have "length (prob_list s) = N"
      using fill Inr by (simp add: init_locals_def)
    then have a: "length (prob_list (decide s)) \<le> N" by (simp add: decide_eq)
    have b: "\<forall>pl\<in>set (history (decide s)). length pl \<le> N"
      using fill Inr by (simp add: decide_eq final_locals_def)
    show ?thesis
      unfolding r using a b by (rule slide_loop_bound)
  qed
qed

text \<open>A failure of \<^verbatim>\<open>scaler.transform\<close> comes before the loops and is what the caller sees.\<close>

lemma predict_output_scaler_raises:
  "extract_mfccs ext y = Inr mfccs \<Longrightarrow> scaler mfccs = Some e \<Longrightarrow>
   predict_output ext y scaler = Inl e"
  by (simp add: predict_output_def predict_probability_def)

subsection \<open>The scripted test double\<close>

lemma scripted_calls_succeed:
  "calls_succeed scripted y no_scaling (scripted_frames y) scripted_model hd"
  by (simp add: calls_succeed_def scripted_def no_scaling_def scripted_frames_def
        scripted_model_def)

lemma length_scripted_frames: "length (scripted_frames y) = length y"
  by (simp add: scripted_frames_def)

section \<open>Clips shorter than the window\<close>

text \<open>
  C4, as the code has it. There is no NoDecisions error in the file and \<^verbatim>\<open>predict_output\<close>
  checks nothing before it takes the mean. When the clip has fewer than \<open>N = 10\<close> frames,
  \<^verbatim>\<open>predict_output\<close> returns no label: it fails. When the calls that leave the file return,
  it fails with the IndexError that \<^verbatim>\<open>mfccs_list[i]\<close> raises in the first loop of
  \<^verbatim>\<open>predict_probability\<close>: at that point every frame present has been scored, no decision
  has been appended, and the mean of the decisions is never taken.
\<close>

theorem predict_output_short_clip:
  assumes "extract_mfccs ext y = Inr mfccs" and "length mfccs < N"
  shows "(\<exists>e. predict_output ext y scaler = Inl e) \<and>
         (calls_succeed ext y scaler mfccs model score \<longrightarrow>
            predict_output ext y scaler = Inl IndexError \<and>
            (\<exists>s. run model mfccs = Inl (IndexError, s) \<and> class_list s = [] \<and>
                 prob_list s = map score mfccs))"
proof -
  obtain e where "predict_probability ext y scaler = Inl e"
    using predict_probability_short_fails [OF assms] by blast
  then have fails: "\<exists>e. predict_output ext y scaler = Inl e"
    by (simp add: predict_output_def)
  have ok: "predict_output ext y scaler = Inl IndexError \<and>
            (\<exists>s. run model mfccs = Inl (IndexError, s) \<and> class_list s = [] \<and>
                 prob_list s = map score mfccs)"
    if cs: "calls_succeed ext y scaler mfccs model score"
  proof -
    have sc: "\<forall>f\<in>set mfccs. length f = 12 \<and> model f = Inr (score f)"
      using cs by (simp add: calls_succeed_def)
    have "predict_output ext y scaler = Inl IndexError"
      using predict_probability_short [OF cs assms(2)] by (simp add: predict_output_def)
    moreover have "\<exists>s. run model mfccs = Inl (IndexError, s) \<and> class_list s = [] \<and>
                prob_list s = map score mfccs"
      using run_short [OF sc assms(2)] by simp
    ultimately show ?thesis by simp
  qed
  show ?thesis
    using fails ok by blast
qed

theorem predict_output_short_clip_witness:
  "extract_mfccs scripted [1 / 2, 1 / 3, 1 / 4] = Inr (scripted_frames [1 / 2, 1 / 3, 1 / 4]) \<and>
   length (scripted_frames [1 / 2, 1 / 3, 1 / 4]) < N \<and>
   calls_succeed scripted [1 / 2, 1 / 3, 1 / 4] no_scaling
     (scripted_frames [1 / 2, 1 / 3, 1 / 4]) scripted_model hd \<and>
   predict_output scripted [1 / 2, 1 / 3, 1 / 4] no_scaling = Inl IndexError"
proof -
  have x: "extract_mfccs scripted [1 / 2, 1 / 3, 1 / 4] =
      Inr (scripted_frames [1 / 2, 1 / 3, 1 / 4])"
    by (simp add: scripted_def)
  have l: "length (scripted_frames [1 / 2, 1 / 3, 1 / 4]) < N"
    by (simp add: scripted_frames_def N_def)
  have c: "calls_succeed scripted [1 / 2, 1 / 3, 1 / 4] no_scaling
     (scripted_frames [1 / 2, 1 / 3, 1 / 4]) scripted_model hd"
    by (rule scripted_calls_succeed)
  have "predict_output scripted [1 / 2, 1 / 3, 1 / 4] no_scaling = Inl IndexError"
    using predict_output_short_clip [OF x l, of no_scaling scripted_model hd] c by blast
  then show ?thesis
    using x l c by (intro conjI)
qed

text \<open>
  C4, as stated, fails on a clip of three frames: \<^verbatim>\<open>predict_output\<close> raises IndexError,
  which is not the NoDecisions error of the claim.
\<close>

theorem short_clip_error_kind_counterexample:
  "predict_output scripted [1 / 2, 1 / 3, 1 / 4] no_scaling = Inl IndexError \<and>
   predict_output scripted [1 / 2, 1 / 3, 1 / 4] no_scaling \<noteq> Inl (Other ''NoDecisions'')"
  by code_simp

text \<open>
  C10. When the clip has fewer than \<open>N = 10\<close> frames, \<^verbatim>\<open>predict_probability\<close> does not
  return: the first loop indexes the frames \<open>0\<close> to \<open>N - 1\<close> unconditionally, and when the
  calls that leave the file return it raises IndexError at the first index that is out of
  range, after scoring the frames there are. The function never returns an empty list,
  and, the calls returning, it returns a list exactly when there are at least \<open>N\<close> frames.
\<close>

theorem short_clip_raises:
  assumes "extract_mfccs ext y = Inr mfccs"
  shows "predict_probability ext y scaler \<noteq> Inr [] \<and>
         (length mfccs < N \<longrightarrow> (\<exists>e. predict_probability ext y scaler = Inl e)) \<and>
         (calls_succeed ext y scaler mfccs model score \<longrightarrow>
            (length mfccs < N \<longrightarrow>
               predict_probability ext y scaler = Inl IndexError \<and>
               (\<exists>s. run model mfccs = Inl (IndexError, s) \<and>
                    length (prob_list s) = length mfccs)) \<and>
            ((\<exists>cl. predict_probability ext y scaler = Inr cl) \<longleftrightarrow> N \<le> length mfccs))"
proof -
  have a: "predict_probability ext y scaler \<noteq> Inr []"
    by (rule predict_probability_nonempty)
  have b: "length mfccs < N \<longrightarrow> (\<exists>e. predict_probability ext y scaler = Inl e)"
    using predict_probability_short_fails [OF assms] by blast
  have c: "(length mfccs < N \<longrightarrow>
               predict_probability ext y scaler = Inl IndexError \<and>
               (\<exists>s. run model mfccs = Inl (IndexError, s) \<and>
                    length (prob_list s) = length mfccs)) \<and>
            ((\<exists>cl. predict_probability ext y scaler = Inr cl) \<longleftrightarrow> N \<le> length mfccs)"
    if cs: "calls_succeed ext y scaler mfccs model score"
  proof (cases "length mfccs < N")
    case True
    have sc: "\<forall>f\<in>set mfccs. length f = 12 \<and> model f = Inr (score f)"
      using cs by (simp add: calls_succeed_def)
    have "\<exists>s. run model mfccs = Inl (IndexError, s) \<and> length (prob_list s) = length mfccs"
      using run_short [OF sc True] by simp
    then show ?thesis
      using True predict_probability_short [OF cs True] by simp
  next
    case False
    then have "N \<le> length mfccs" by simp
    then show ?thesis
      using predict_probability_eq [OF cs] by (simp del: upt_Suc)
  qed
  show ?thesis
    using a b c by blast
qed

theorem short_clip_raises_witness:
  "extract_mfccs scripted [1 / 2, 1 / 3, 1 / 4] = Inr (scripted_frames [1 / 2, 1 / 3, 1 / 4]) \<and>
   calls_succeed scripted [1 / 2, 1 / 3, 1 / 4] no_scaling
     (scripted_frames [1 / 2, 1 / 3, 1 / 4]) scripted_model hd \<and>
   length (scripted_frames [1 / 2, 1 / 3, 1 / 4]) < N \<and>
   predict_probability scripted [1 / 2, 1 / 3, 1 / 4] no_scaling = Inl IndexError \<and>
   extract_mfccs scripted (replicate 10 (1 / 2)) = Inr (scripted_frames (replicate 10 (1 / 2))) \<and>
   calls_succeed scripted (replicate 10 (1 / 2)) no_scaling
     (scripted_frames (replicate 10 (1 / 2))) scripted_model hd \<and>
   N \<le> length (scripted_frames (replicate 10 (1 / 2))) \<and>
   (\<exists>cl. predict_probability scripted (replicate 10 (1 / 2)) no_scaling = Inr cl)"
proof -
  have x: "extract_mfccs scripted y = Inr (scripted_frames y)" for y
    by (simp add: scripted_def)
  have c: "calls_succeed scripted y no_scaling (scripted_frames y) scripted_model hd" for y
    by (rule scripted_calls_succeed)
  have l: "length (scripted_frames [1 / 2, 1 / 3, 1 / 4]) < N"
    by (simp add: scripted_frames_def N_def)
  have g: "N \<le> length (scripted_frames (replicate 10 (1 / 2)))"
    by (simp add: scripted_frames_def N_def)
  have short: "predict_probability scripted [1 / 2, 1 / 3, 1 / 4] no_scaling = Inl IndexError"
    using short_clip_raises [OF x [of "[1 / 2, 1 / 3, 1 / 4]"], of no_scaling scripted_model hd]
      c [of "[1 / 2, 1 / 3, 1 / 4]"] l
    by blast
  have long: "\<exists>cl. predict_probability scripted (replicate 10 (1 / 2)) no_scaling = Inr cl"
    using short_clip_raises [OF x [of "replicate 10 (1 / 2)"], of no_scaling scripted_model hd]
      c [of "replicate 10 (1 / 2)"] g
    by blast
  show ?thesis
    using x c l g short long by (intro conjI)
qed

section \<open>The list of decisions\<close>



section \<open>The running label and the threshold\<close>



lemma sum_list_of_nat: "sum_list (map of_nat cl) = (of_nat (sum_list cl) :: rat)"
  by (induction cl) auto



section \<open>The clip-level label\<close>

text \<open>
  C3. Every list of decisions that reaches the last statement of \<^verbatim>\<open>predict_output\<close> is
  non-empty, and on it \<^verbatim>\<open>predict_output\<close> returns 1 exactly when the mean of the labels is
  strictly above \<open>1/2\<close>, that is when the ones are a strict majority, and 0 exactly when
  the mean is at most \<open>1/2\<close>; a mean of exactly \<open>1/2\<close> gives 0.
\<close>

theorem clip_label_strict_majority:
  assumes "predict_probability ext y scaler = Inr cl"
  shows "cl \<noteq> [] \<and>
         (predict_output ext y scaler = Inr 1 \<longleftrightarrow>
            1 / 2 < (of_nat (sum_list cl) :: rat) / of_nat (length cl)) \<and>
         (predict_output ext y scaler = Inr 0 \<longleftrightarrow>
            (of_nat (sum_list cl) :: rat) / of_nat (length cl) \<le> 1 / 2) \<and>
         (predict_output ext y scaler = Inr 1 \<longleftrightarrow> length cl < 2 * sum_list cl)"
proof -
  have ne: "cl \<noteq> []"
    using assms predict_probability_nonempty [of ext y scaler] by auto
  then have pos: "(0::rat) < of_nat (length cl)" by simp
  have m: "np_mean (map of_nat cl) = Some ((of_nat (sum_list cl) :: rat) / of_nat (length cl))"
    using ne by (simp add: np_mean_def sum_list_of_nat)
  have po: "predict_output ext y scaler =
      Inr (if 1 / 2 < (of_nat (sum_list cl) :: rat) / of_nat (length cl) then 1 else 0)"
    by (simp add: predict_output_def assms m)
  have "(1 / 2 < (of_nat (sum_list cl) :: rat) / of_nat (length cl)) \<longleftrightarrow>
        (of_nat (length cl) :: rat) < of_nat (2 * sum_list cl)"
    using pos by (simp add: field_simps)
  also have "\<dots> \<longleftrightarrow> length cl < 2 * sum_list cl"
    by (simp only: of_nat_less_iff)
  finally have maj: "(1 / 2 < (of_nat (sum_list cl) :: rat) / of_nat (length cl)) \<longleftrightarrow>
      length cl < 2 * sum_list cl" .
  have p1: "predict_output ext y scaler = Inr 1 \<longleftrightarrow>
            1 / 2 < (of_nat (sum_list cl) :: rat) / of_nat (length cl)"
    unfolding po by simp
  have p0: "predict_output ext y scaler = Inr 0 \<longleftrightarrow>
            (of_nat (sum_list cl) :: rat) / of_nat (length cl) \<le> 1 / 2"
    unfolding po by (simp add: not_less)
  have p2: "predict_output ext y scaler = Inr 1 \<longleftrightarrow> length cl < 2 * sum_list cl"
    using p1 maj by simp
  show ?thesis
    by (intro conjI ne p1 p0 p2)
qed

theorem clip_label_strict_majority_witness:
  "predict_probability scripted (replicate 10 (9 / 10) @ replicate 9 (1 / 10)) no_scaling =
     Inr [1, 1, 1, 1, 1, 0, 0, 0, 0, 0] \<and>
   (of_nat (sum_list [1, 1, 1, 1, 1, 0, 0, 0, 0, 0 :: nat]) :: rat) /
     of_nat (length [1, 1, 1, 1, 1, 0, 0, 0, 0, 0 :: nat]) = 1 / 2 \<and>
   predict_output scripted (replicate 10 (9 / 10) @ replicate 9 (1 / 10)) no_scaling = Inr 0 \<and>
   predict_probability scripted (replicate 12 (9 / 10)) no_scaling = Inr [1, 1, 1] \<and>
   predict_output scripted (replicate 12 (9 / 10)) no_scaling = Inr 1"
proof -
  have r: "predict_probability scripted (replicate 10 (9 / 10) @ replicate 9 (1 / 10))
             no_scaling = Inr [1, 1, 1, 1, 1, 0, 0, 0, 0, 0]"
    by code_simp
  have h: "(of_nat (sum_list [1, 1, 1, 1, 1, 0, 0, 0, 0, 0 :: nat]) :: rat) /
     of_nat (length [1, 1, 1, 1, 1, 0, 0, 0, 0, 0 :: nat]) = 1 / 2"
    by simp
  have "predict_output scripted (replicate 10 (9 / 10) @ replicate 9 (1 / 10)) no_scaling =
          Inr 0 \<longleftrightarrow>
        (of_nat (sum_list [1, 1, 1, 1, 1, 0, 0, 0, 0, 0 :: nat]) :: rat) /
          of_nat (length [1, 1, 1, 1, 1, 0, 0, 0, 0, 0 :: nat]) \<le> 1 / 2"
    using clip_label_strict_majority [OF r] by (elim conjE)
  then have tie: "predict_output scripted (replicate 10 (9 / 10) @ replicate 9 (1 / 10))
               no_scaling = Inr 0"
    unfolding h by simp
  have r1: "predict_probability scripted (replicate 12 (9 / 10)) no_scaling = Inr [1, 1, 1]"
    by code_simp
  have "predict_output scripted (replicate 12 (9 / 10)) no_scaling = Inr 1 \<longleftrightarrow>
        length [1, 1, 1 :: nat] < 2 * sum_list [1, 1, 1 :: nat]"
    using clip_label_strict_majority [OF r1] by (elim conjE)
  then have maj: "predict_output scripted (replicate 12 (9 / 10)) no_scaling = Inr 1"
    by simp
  show ?thesis
    using r h tie r1 maj by (intro conjI)
qed

section \<open>The scripted scenario\<close>

text \<open>
  C7, as the code has it, in exact arithmetic. On the probabilities ten times \<open>9/10\<close> then
  ten times \<open>1/10\<close> the decisions of the pushes 10 to 14 are 1 and those of the pushes 15
  to 20 are 0: the label changes at the 15th push, the first at which the mean of the
  window is no longer above \<open>th\<close>. The window then holds five entries \<open>9/10\<close> and five
  \<open>1/10\<close>, its mean is exactly \<open>th\<close>, and the strict comparison gives 0. The window holds
  no \<open>9/10\<close> from the 20th push only. Entry \<open>10 + 2 * k\<close> of the history is the window
  after push \<open>10 + k\<close>.
\<close>

theorem scripted_scores_transition:
  "predict_probability scripted (replicate 10 (9 / 10) @ replicate 10 (1 / 10)) no_scaling =
     Inr (replicate 5 1 @ replicate 6 0) \<and>
   history (final_locals (run scripted_model
       (scripted_frames (replicate 10 (9 / 10) @ replicate 10 (1 / 10))))) ! 20 =
     replicate 5 (9 / 10) @ replicate 5 (1 / 10) \<and>
   np_mean (replicate 5 (9 / 10) @ replicate 5 (1 / 10)) = Some th \<and>
   history (final_locals (run scripted_model
       (scripted_frames (replicate 10 (9 / 10) @ replicate 10 (1 / 10))))) ! 28 =
     [9 / 10] @ replicate 9 (1 / 10) \<and>
   history (final_locals (run scripted_model
       (scripted_frames (replicate 10 (9 / 10) @ replicate 10 (1 / 10))))) ! 30 =
     replicate 10 (1 / 10)"
  by code_simp

text \<open>
  C7, as stated, fails: the decision of the 11th push is still 1, and the window after
  the 11th push still holds nine entries \<open>9/10\<close>.
\<close>

theorem scripted_scores_counterexample:
  "map_sum id (take 2)
     (predict_probability scripted (replicate 10 (9 / 10) @ replicate 10 (1 / 10)) no_scaling) =
     Inr [1, 1] \<and>
   history (final_locals (run scripted_model
       (scripted_frames (replicate 10 (9 / 10) @ replicate 10 (1 / 10))))) ! 12 =
     replicate 9 (9 / 10) @ [1 / 10]"
  by code_simp

section \<open>The probability window\<close>

lemma last_window:
  "N \<le> length mfccs \<Longrightarrow>
   window score mfccs (length mfccs - N) = map score (drop (length mfccs - N) mfccs)"
  by simp

text \<open>
  C1. Every value that \<^verbatim>\<open>prob_list\<close> takes, from its initialisation to the end of the
  function, by an exception or not, has at most \<open>N = 10\<close> entries. When the calls that
  leave the file return:
  with fewer than \<open>N\<close> probabilities no decision is produced (the function ends in the
  IndexError of the first loop with \<^verbatim>\<open>class_list\<close> still empty); with exactly \<open>N\<close>
  probabilities exactly one decision is returned; and once the window is full each
  further frame first removes the oldest entry and then appends the new probability: the
  values of \<^verbatim>\<open>prob_list\<close> are the prefixes of length 0 to \<open>N\<close>, then for each further frame
  the previous window without its first entry followed by the window of the last \<open>N\<close>
  frames, and at the end it holds the probabilities of the last \<open>N\<close> frames in frame order.
\<close>

theorem smoother_window_discipline:
  "(\<forall>pl\<in>set (history (final_locals (run model mfccs))). length pl \<le> N) \<and>
   (calls_succeed ext y scaler mfccs model score \<longrightarrow>
      (length mfccs < N \<longrightarrow>
         predict_probability ext y scaler = Inl IndexError \<and>
         class_list (final_locals (run model mfccs)) = []) \<and>
      (length mfccs = N \<longrightarrow> (\<exists>c. predict_probability ext y scaler = Inr [c])) \<and>
      (N \<le> length mfccs \<longrightarrow>
         prob_list (final_locals (run model mfccs)) =
           map score (drop (length mfccs - N) mfccs) \<and>
         history (final_locals (run model mfccs)) =
           map (\<lambda>j. map score (take j mfccs)) [0..<Suc N] @
           concat (map (\<lambda>j. [tl (window score mfccs (j - 1)), window score mfccs j])
                    [1..<Suc (length mfccs - N)])))"
proof -
  have bound: "\<forall>pl\<in>set (history (final_locals (run model mfccs))). length pl \<le> N"
    by (rule run_history_bound)
  have rest: "(length mfccs < N \<longrightarrow>
         predict_probability ext y scaler = Inl IndexError \<and>
         class_list (final_locals (run model mfccs)) = []) \<and>
      (length mfccs = N \<longrightarrow> (\<exists>c. predict_probability ext y scaler = Inr [c])) \<and>
      (N \<le> length mfccs \<longrightarrow>
         prob_list (final_locals (run model mfccs)) =
           map score (drop (length mfccs - N) mfccs) \<and>
         history (final_locals (run model mfccs)) =
           map (\<lambda>j. map score (take j mfccs)) [0..<Suc N] @
           concat (map (\<lambda>j. [tl (window score mfccs (j - 1)), window score mfccs j])
                    [1..<Suc (length mfccs - N)]))"
    if cs: "calls_succeed ext y scaler mfccs model score"
  proof (cases "length mfccs < N")
    case True
    have sc: "\<forall>f\<in>set mfccs. length f = 12 \<and> model f = Inr (score f)"
      using cs by (simp add: calls_succeed_def)
    have fl: "final_locals (run model mfccs) =
        \<lparr>prob_list = map score mfccs, class_list = [],
         history = map (\<lambda>j. map score (take j mfccs)) [0..<Suc (length mfccs)]\<rparr>"
      by (simp add: run_short [OF sc True] final_locals_def)
    have a: "predict_probability ext y scaler = Inl IndexError"
      using cs True by (rule predict_probability_short)
    have b: "class_list (final_locals (run model mfccs)) = []"
      by (simp add: fl)
    show ?thesis
      using True a b by simp
  next
    case False
    then have long: "N \<le> length mfccs" by simp
    have sc: "\<forall>f\<in>set mfccs. length f = 12 \<and> model f = Inr (score f)"
      using cs by (simp add: calls_succeed_def)
    have fl: "final_locals (run model mfccs) =
      \<lparr>prob_list = window score mfccs (length mfccs - N),
           class_list = map (\<lambda>j. label_of (window score mfccs j)) [0..<Suc (length mfccs - N)],
           history = map (\<lambda>j. map score (take j mfccs)) [0..<Suc N] @
             concat (map (\<lambda>j. [tl (window score mfccs (j - 1)), window score mfccs j])
                      [1..<Suc (length mfccs - N)])\<rparr>"
      by (simp add: run_ok [OF sc long] final_locals_def del: upt_Suc)
    have one: "\<exists>c. predict_probability ext y scaler = Inr [c]" if "length mfccs = N"
      using predict_probability_eq [OF cs long] that by simp
    have d: "prob_list (final_locals (run model mfccs)) =
        map score (drop (length mfccs - N) mfccs)"
      unfolding fl using last_window [OF long, of score] by simp
    have e: "history (final_locals (run model mfccs)) =
                map (\<lambda>j. map score (take j mfccs)) [0..<Suc N] @
                concat (map (\<lambda>j. [tl (window score mfccs (j - 1)), window score mfccs j])
                         [1..<Suc (length mfccs - N)])"
      unfolding fl by simp
    show ?thesis
      using False one d e by (intro conjI impI) simp_all
  qed
  show ?thesis
    using bound rest by blast
qed

theorem smoother_window_discipline_witness:
  "calls_succeed scripted [1 / 2, 1 / 3, 1 / 4] no_scaling
     (scripted_frames [1 / 2, 1 / 3, 1 / 4]) scripted_model hd \<and>
   length (scripted_frames [1 / 2, 1 / 3, 1 / 4]) < N \<and>
   predict_probability scripted [1 / 2, 1 / 3, 1 / 4] no_scaling = Inl IndexError \<and>
   calls_succeed scripted (replicate 10 (1 / 2)) no_scaling
     (scripted_frames (replicate 10 (1 / 2))) scripted_model hd \<and>
   length (scripted_frames (replicate 10 (1 / 2))) = N \<and>
   (\<exists>c. predict_probability scripted (replicate 10 (1 / 2)) no_scaling = Inr [c]) \<and>
   calls_succeed scripted (replicate 12 (1 / 2)) no_scaling
     (scripted_frames (replicate 12 (1 / 2))) scripted_model hd \<and>
   N \<le> length (scripted_frames (replicate 12 (1 / 2))) \<and>
   list_all (\<lambda>pl. length pl \<le> N) (history (final_locals (run scripted_model
        (scripted_frames (replicate 12 (1 / 2)))))) \<and>
   prob_list (final_locals (run scripted_model (scripted_frames (replicate 12 (1 / 2))))) =
     map hd (drop (length (scripted_frames (replicate 12 (1 / 2))) - N)
       (scripted_frames (replicate 12 (1 / 2))))"
proof -
  have c: "calls_succeed scripted y no_scaling (scripted_frames y) scripted_model hd" for y
    by (rule scripted_calls_succeed)
  have l: "length (scripted_frames [1 / 2, 1 / 3, 1 / 4]) < N"
    by (simp add: scripted_frames_def N_def)
  have e: "length (scripted_frames (replicate 10 (1 / 2))) = N"
    by (simp add: scripted_frames_def N_def)
  have g: "N \<le> length (scripted_frames (replicate 12 (1 / 2)))"
    by (simp add: scripted_frames_def N_def)
  note t = smoother_window_discipline [of scripted_model _ scripted _ no_scaling hd]
  have short: "predict_probability scripted [1 / 2, 1 / 3, 1 / 4] no_scaling = Inl IndexError"
    using t [of "scripted_frames [1 / 2, 1 / 3, 1 / 4]" "[1 / 2, 1 / 3, 1 / 4]"]
      c [of "[1 / 2, 1 / 3, 1 / 4]"] l
    by blast
  have full: "\<exists>c. predict_probability scripted (replicate 10 (1 / 2)) no_scaling = Inr [c]"
    using t [of "scripted_frames (replicate 10 (1 / 2))" "replicate 10 (1 / 2)"]
      c [of "replicate 10 (1 / 2)"] e
    by blast
  have "\<forall>pl\<in>set (history (final_locals (run scripted_model
        (scripted_frames (replicate 12 (1 / 2)))))). length pl \<le> N"
    using t [of "scripted_frames (replicate 12 (1 / 2))" "replicate 12 (1 / 2)"]
    by (elim conjE)
  then have bound: "list_all (\<lambda>pl. length pl \<le> N) (history (final_locals (run scripted_model
        (scripted_frames (replicate 12 (1 / 2))))))"
    by (simp only: list_all_iff)
  have fifo: "prob_list (final_locals (run scripted_model
        (scripted_frames (replicate 12 (1 / 2))))) =
     map hd (drop (length (scripted_frames (replicate 12 (1 / 2))) - N)
       (scripted_frames (replicate 12 (1 / 2))))"
    using t [of "scripted_frames (replicate 12 (1 / 2))" "replicate 12 (1 / 2)"]
      c [of "replicate 12 (1 / 2)"] g
    by blast
  show ?thesis
    using c l e g short full bound fifo by (intro conjI)
qed

end
